theory Spec2Isabelle
  imports Complex_Main "HOL-Library.Multiset"
begin

section \<open>Provider adapters of LangExtract: Anthropic and Mistral\<close>

text \<open>
  The two provider modules \<^verbatim>\<open>langextract/providers/anthropic.py\<close> and
  \<^verbatim>\<open>langextract/providers/mistral.py\<close> are the same program up to five places:
  the name of the imported client package, the client method that issues the remote call,
  the default of \<^verbatim>\<open>max_tokens\<close> (4096 against none), the path to the text of the
  first element of the response, and the prefix of the error message. One embedding,
  parametrised by the backend, covers both classes.
\<close>

subsection \<open>Values, exceptions and data\<close>

text \<open>
  Python values that travel through \<^verbatim>\<open>**kwargs\<close> and the call configuration. They are only
  stored and passed on, never computed with, so a float is carried as a real number.
\<close>

datatype pyval = PyNone | PyInt int | PyFloat real | PyStr string

datatype backend = Anthropic | Mistral

text \<open>
  Modelled from the spec: \<^verbatim>\<open>data.FormatType\<close> is declared in \<^verbatim>\<open>langextract/data.py\<close>,
  which is not among the sources; the output-format selector is the enumeration JSON | YAML.
  The field is not type-checked at run time, so \<open>OtherFormat\<close> stands for any value that
  compares unequal to both members.
\<close>

datatype FormatType = JSON | YAML | OtherFormat

text \<open>
  Modelled from the spec: the exception classes live in \<^verbatim>\<open>langextract/exceptions.py\<close>,
  which is not among the sources. \<open>InferenceConfigError\<close> is the configuration error raised
  at construction; \<open>InferenceRuntimeError\<close> carries a human-readable message and, in its
  \<^verbatim>\<open>original\<close> attribute, the error it was raised for (or nothing).
  \<open>RemoteError s\<close> is any exception raised by the client package during the remote call,
  \<open>s\<close> being its \<^verbatim>\<open>str()\<close>; \<open>IndexError\<close> is what indexing an empty list raises and
  \<open>KeyError\<close> what a dictionary lookup of a missing key raises. \<open>ForeignError s\<close> is any
  exception raised, during construction, inside the constructor of the client package or of
  the base class; it is none of the errors the provider modules raise themselves.
\<close>

datatype exn =
    RemoteError string
  | IndexError
  | KeyError
  | InferenceConfigError string
  | InferenceRuntimeError string "exn option"
  | ForeignError string

fun str_exn :: "exn \<Rightarrow> string" where
  "str_exn (RemoteError s) = s"
| "str_exn IndexError = ''list index out of range''"
| "str_exn KeyError = ''KeyError''"
| "str_exn (InferenceConfigError s) = s"
| "str_exn (InferenceRuntimeError s orig) = s"
| "str_exn (ForeignError s) = s"

text \<open>\<^verbatim>\<open>inference.ScoredOutput(score=, output=)\<close>; \<open>so_output\<close> is its field \<^verbatim>\<open>output\<close>.\<close>

record ScoredOutput =
  score :: real
  so_output :: string

record message =
  role :: string
  content :: string

text \<open>The keyword arguments of the one remote call a prompt causes.\<close>

record request =
  req_model :: string
  req_messages :: "message list"
  req_temperature :: pyval
  req_max_tokens :: pyval
  req_top_p :: pyval

text \<open>
  A response is the list of the texts of its content elements (Anthropic:
  \<^verbatim>\<open>response.content[i].text\<close>; Mistral: \<^verbatim>\<open>response.choices[i].message.content\<close>).
  The remote service answers a request with a response or raises.
\<close>

type_synonym response = "string list"

type_synonym remote = "request \<Rightarrow> exn + response"

type_synonym kwargs = "string \<rightharpoonup> pyval"

text \<open>The handle made by \<^verbatim>\<open>anthropic.Anthropic(api_key=, base_url=)\<close>, resp.
  \<^verbatim>\<open>Mistral(api_key=, endpoint=)\<close>.\<close>

record client_handle =
  handle_api_key :: string
  handle_base_url :: "string option"

record language_model =
  provider :: backend
  model_id :: string
  api_key :: "string option"
  base_url :: "string option"
  format_type :: FormatType
  temperature :: real
  max_workers :: int
  client :: client_handle
  extra_kwargs :: kwargs

subsection \<open>Construction\<close>







subsection \<open>One prompt\<close>

text \<open>\<^verbatim>\<open>d.get(k, default)\<close>.\<close>

definition dict_get :: "kwargs \<Rightarrow> string \<Rightarrow> pyval \<Rightarrow> pyval" where
  "dict_get d k dflt = (case d k of Some v \<Rightarrow> v | None \<Rightarrow> dflt)"

definition system_message :: "language_model \<Rightarrow> string" where
  "system_message self =
     (if format_type self = JSON
        then ''You are a helpful assistant that responds in JSON format.''
      else if format_type self = YAML
        then ''You are a helpful assistant that responds in YAML format.''
      else [])"

definition messages :: "language_model \<Rightarrow> string \<Rightarrow> message list" where
  "messages self prompt =
     (if system_message self \<noteq> []
        then [\<lparr> role = ''system'', content = system_message self \<rparr>]
        else [])
     @ [\<lparr> role = ''user'', content = prompt \<rparr>]"

definition default_max_tokens :: "backend \<Rightarrow> pyval" where
  "default_max_tokens b = (case b of Anthropic \<Rightarrow> PyInt 4096 | Mistral \<Rightarrow> PyNone)"

definition api_call :: "language_model \<Rightarrow> string \<Rightarrow> kwargs \<Rightarrow> request" where
  "api_call self prompt config =
     \<lparr> req_model = model_id self,
       req_messages = messages self prompt,
       req_temperature = dict_get config ''temperature'' (PyFloat (temperature self)),
       req_max_tokens = dict_get config ''max_output_tokens'' (default_max_tokens (provider self)),
       req_top_p = dict_get config ''top_p'' PyNone \<rparr>"

definition api_error_prefix :: "backend \<Rightarrow> string" where
  "api_error_prefix b =
     (case b of Anthropic \<Rightarrow> ''Anthropic API error: '' | Mistral \<Rightarrow> ''Mistral API error: '')"

text \<open>The handler of \<^verbatim>\<open>except Exception as e\<close> in \<^verbatim>\<open>_process_single_prompt\<close>.\<close>

definition api_error :: "language_model \<Rightarrow> exn \<Rightarrow> exn" where
  "api_error self e = InferenceRuntimeError (api_error_prefix (provider self) @ str_exn e) (Some e)"

text \<open>
  \<^verbatim>\<open>_process_single_prompt\<close>. The last argument and the second component of the result are
  the trace of the remote calls issued so far. The whole body is inside the \<^verbatim>\<open>try\<close>, so an
  exception of the remote call and the \<open>IndexError\<close> of a response without content
  elements both leave through the handler.
\<close>

definition process_single_prompt ::
  "language_model \<Rightarrow> remote \<Rightarrow> string \<Rightarrow> kwargs \<Rightarrow> request list
     \<Rightarrow> (exn + ScoredOutput) \<times> request list" where
  "process_single_prompt self api prompt config trace =
     (let call = api_call self prompt config;
          trace' = trace @ [call]
      in case api call of
           Inl e \<Rightarrow> (Inl (api_error self e), trace')
         | Inr response \<Rightarrow>
             (case response of
                [] \<Rightarrow> (Inl (api_error self IndexError), trace')
              | output_text # _ \<Rightarrow> (Inr \<lparr> score = 1, so_output = output_text \<rparr>, trace')))"

subsection \<open>A batch\<close>

text \<open>
  \<^verbatim>\<open>infer\<close> is a generator. Its behaviour when it is consumed to the end is the list of
  the values it yields, the exception that ends it (if any), the remote calls it issued and
  the size of the worker pool it created (if any).
\<close>

record run =
  yielded :: "ScoredOutput list list"
  raised :: "exn option"
  calls :: "request list"
  pool :: "int option"

text \<open>The first lines of \<^verbatim>\<open>infer\<close>: the call configuration.\<close>

definition call_config :: "language_model \<Rightarrow> kwargs \<Rightarrow> kwargs" where
  "call_config self kw =
     (let config = [''temperature'' \<mapsto> dict_get kw ''temperature'' (PyFloat (temperature self))];
          config = (case kw ''max_output_tokens'' of
                      Some v \<Rightarrow> config(''max_output_tokens'' \<mapsto> v) | None \<Rightarrow> config);
          config = (case kw ''top_p'' of
                      Some v \<Rightarrow> config(''top_p'' \<mapsto> v) | None \<Rightarrow> config)
      in config)"

text \<open>The \<^verbatim>\<open>else\<close> branch: one prompt after the other, each result yielded at once.\<close>

fun sequential ::
  "language_model \<Rightarrow> remote \<Rightarrow> kwargs \<Rightarrow> string list \<Rightarrow> request list \<Rightarrow> run" where
  "sequential self api config [] trace =
     \<lparr> yielded = [], raised = None, calls = trace, pool = None \<rparr>"
| "sequential self api config (prompt # rest) trace =
     (case process_single_prompt self api prompt config trace of
        (Inl e, trace') \<Rightarrow> \<lparr> yielded = [], raised = Some e, calls = trace', pool = None \<rparr>
      | (Inr result, trace') \<Rightarrow>
          (let r = sequential self api config rest trace'
           in r\<lparr> yielded := [result] # yielded r \<rparr>))"

text \<open>
  The worker pool. Every prompt is submitted, in input order, and every submitted task runs
  once: leaving the \<^verbatim>\<open>with\<close> block waits for the pool, also when an exception leaves it.
  The order in which the workers issue their calls is not determined by the program; the trace
  lists them by position of submission.
\<close>

fun submit_all ::
  "language_model \<Rightarrow> remote \<Rightarrow> kwargs \<Rightarrow> string list \<Rightarrow> request list
     \<Rightarrow> (exn + ScoredOutput) list \<times> request list" where
  "submit_all self api config [] trace = ([], trace)"
| "submit_all self api config (prompt # rest) trace =
     (case process_single_prompt self api prompt config trace of
        (outcome, trace') \<Rightarrow>
          (case submit_all self api config rest trace' of
             (outcomes, trace'') \<Rightarrow> (outcome # outcomes, trace'')))"

definition parallel_error :: "exn \<Rightarrow> exn" where
  "parallel_error e = InferenceRuntimeError (''Parallel inference error: '' @ str_exn e) (Some e)"

text \<open>
  The loop over \<^verbatim>\<open>as_completed\<close>. The second argument is the order of completion, given
  by the positions of the futures; \<^verbatim>\<open>future_to_index[future]\<close> raises \<open>KeyError\<close> for a
  future that was not submitted.
\<close>

fun collect ::
  "(exn + ScoredOutput) list \<Rightarrow> nat list \<Rightarrow> ScoredOutput option list
     \<Rightarrow> exn + ScoredOutput option list" where
  "collect outcomes [] results = Inr results"
| "collect outcomes (index # later) results =
     (if index < length outcomes then
        (case outcomes ! index of
           Inl e \<Rightarrow> Inl (parallel_error e)
         | Inr result \<Rightarrow> collect outcomes later (results[index := Some result]))
      else Inl KeyError)"

text \<open>The loop over the buffer, with its check for a slot that was never filled.\<close>

fun emit :: "ScoredOutput option list \<Rightarrow> ScoredOutput list list \<times> exn option" where
  "emit [] = ([], None)"
| "emit (None # rest) =
     ([], Some (InferenceRuntimeError ''Failed to process one or more prompts'' None))"
| "emit (Some result # rest) = (case emit rest of (ys, e) \<Rightarrow> ([result] # ys, e))"

definition parallel ::
  "language_model \<Rightarrow> remote \<Rightarrow> nat list \<Rightarrow> kwargs \<Rightarrow> string list \<Rightarrow> run" where
  "parallel self api completion config batch_prompts =
     (let workers = min (max_workers self) (int (length batch_prompts))
      in case submit_all self api config batch_prompts [] of
           (outcomes, trace) \<Rightarrow>
             (case collect outcomes completion (replicate (length batch_prompts) None) of
                Inl e \<Rightarrow> \<lparr> yielded = [], raised = Some e, calls = trace, pool = Some workers \<rparr>
              | Inr results \<Rightarrow>
                  (case emit results of
                     (ys, e) \<Rightarrow> \<lparr> yielded = ys, raised = e, calls = trace, pool = Some workers \<rparr>)))"

definition infer :: "language_model \<Rightarrow> remote \<Rightarrow> nat list \<Rightarrow> string list \<Rightarrow> kwargs \<Rightarrow> run" where
  "infer self api completion batch_prompts kw =
     (let config = call_config self kw
      in if length batch_prompts > 1 \<and> max_workers self > 1
         then parallel self api completion config batch_prompts
         else sequential self api config batch_prompts [])"

text \<open>
  The result of \<^verbatim>\<open>_process_single_prompt\<close> alone, without the trace.
\<close>

definition outcome_of ::
  "language_model \<Rightarrow> remote \<Rightarrow> string \<Rightarrow> kwargs \<Rightarrow> exn + ScoredOutput" where
  "outcome_of self api prompt config = fst (process_single_prompt self api prompt config [])"

text \<open>
  The contract of \<^verbatim>\<open>concurrent.futures.as_completed\<close>: each of the \<open>n\<close> submitted
  futures is handed out exactly once, in some order.
\<close>

definition as_completed :: "nat list \<Rightarrow> nat \<Rightarrow> bool" where
  "as_completed completion n \<longleftrightarrow> mset completion = mset [0..<n]"

text \<open>A prompt succeeds when processing it returns a Scored Output.\<close>

definition succeeds :: "language_model \<Rightarrow> remote \<Rightarrow> kwargs \<Rightarrow> string \<Rightarrow> bool" where
  "succeeds self api config prompt \<longleftrightarrow> \<not> isl (outcome_of self api prompt config)"

text \<open>One successful pass of the body of the loop over \<^verbatim>\<open>as_completed\<close>.\<close>

definition fill ::
  "(exn + ScoredOutput) list \<Rightarrow> nat \<Rightarrow> ScoredOutput option list \<Rightarrow> ScoredOutput option list" where
  "fill outcomes i results = results[i := Some (projr (outcomes ! i))]"

text \<open>The attribute \<^verbatim>\<open>original\<close> of an error.\<close>

fun original :: "exn \<Rightarrow> exn option" where
  "original (InferenceRuntimeError s orig) = orig"
| "original e = None"

subsection \<open>Concrete inputs\<close>

text \<open>
  An instance as the constructor leaves it, with \<open>w\<close> workers, and a remote service that
  answers with the user prompt itself and raises on the prompt \<open>bad\<close>.
\<close>

definition demo_model :: "backend \<Rightarrow> int \<Rightarrow> language_model" where
  "demo_model b w =
     \<lparr> provider = b, model_id = ''demo'', api_key = Some ''sk-demo'', base_url = None,
       format_type = JSON, temperature = 0, max_workers = w,
       client = \<lparr> handle_api_key = ''sk-demo'', handle_base_url = None \<rparr>,
       extra_kwargs = Map.empty \<rparr>"

definition echo_api :: remote where
  "echo_api call =
     (case rev (req_messages call) of
        [] \<Rightarrow> Inl (RemoteError ''no messages'')
      | m # _ \<Rightarrow> if content m = ''bad'' then Inl (RemoteError ''boom'') else Inr [content m])"



section \<open>Properties\<close>

subsection \<open>The trace and the result of one prompt\<close>

lemma outcome_of_eq:
  "outcome_of self api prompt config =
     (case api (api_call self prompt config) of
        Inl e \<Rightarrow> Inl (api_error self e)
      | Inr response \<Rightarrow>
          (case response of
             [] \<Rightarrow> Inl (api_error self IndexError)
           | t # _ \<Rightarrow> Inr \<lparr> score = 1, so_output = t \<rparr>))"
  by (simp add: outcome_of_def process_single_prompt_def Let_def split: sum.splits list.splits)

lemma process_single_prompt_eq:
  "process_single_prompt self api prompt config trace =
     (outcome_of self api prompt config, trace @ [api_call self prompt config])"
  by (simp add: outcome_of_def process_single_prompt_def Let_def split: sum.splits list.splits)

lemma sequential_eq:
  "sequential self api config ps trace =
     \<lparr> yielded = map (\<lambda>p. [projr (outcome_of self api p config)])
                     (takeWhile (succeeds self api config) ps),
       raised = (case dropWhile (succeeds self api config) ps of
                   [] \<Rightarrow> None
                 | p # _ \<Rightarrow> Some (projl (outcome_of self api p config))),
       calls = trace @ map (\<lambda>p. api_call self p config)
                           (take (Suc (length (takeWhile (succeeds self api config) ps))) ps),
       pool = None \<rparr>"
proof (induction ps arbitrary: trace)
  case Nil
  show ?case by simp
next
  case (Cons p ps)
  show ?case
  proof (cases "outcome_of self api p config")
    case (Inl e)
    then show ?thesis
      by (simp add: process_single_prompt_eq succeeds_def)
  next
    case (Inr r)
    then show ?thesis
      by (simp add: process_single_prompt_eq succeeds_def Cons.IH)
  qed
qed

lemma submit_all_eq:
  "submit_all self api config ps trace =
     (map (\<lambda>p. outcome_of self api p config) ps,
      trace @ map (\<lambda>p. api_call self p config) ps)"
  by (induction ps arbitrary: trace) (simp_all add: process_single_prompt_eq)

lemma emit_Some: "emit (map (\<lambda>x. Some (f x)) xs) = (map (\<lambda>x. [f x]) xs, None)"
  by (induction xs) simp_all

lemma collect_ok:
  "\<forall>i\<in>set order. i < length outcomes \<and> \<not> isl (outcomes ! i) \<Longrightarrow>
     collect outcomes order rs = Inr (fold (fill outcomes) order rs)"
proof (induction order arbitrary: rs)
  case Nil
  show ?case by simp
next
  case (Cons i order)
  then obtain r where "outcomes ! i = Inr r"
    by (cases "outcomes ! i") auto
  with Cons show ?case by (simp add: fill_def)
qed

lemma length_fold_fill: "length (fold (fill outcomes) order rs) = length rs"
  by (induction order arbitrary: rs) (simp_all add: fill_def)

lemma nth_fold_fill:
  "j < length rs \<Longrightarrow>
     fold (fill outcomes) order rs ! j =
       (if j \<in> set order then Some (projr (outcomes ! j)) else rs ! j)"
proof (induction order arbitrary: rs)
  case Nil
  show ?case by simp
next
  case (Cons i order)
  have "j < length (fill outcomes i rs)" using Cons.prems by (simp add: fill_def)
  from Cons.IH[OF this] Cons.prems show ?case
    by (auto simp: fill_def nth_list_update)
qed

lemma as_completed_set: "as_completed order n \<Longrightarrow> set order = {0..<n}"
  by (metis as_completed_def set_mset_mset set_upt)

lemma fold_fill_all:
  assumes "as_completed order (length outcomes)"
  shows "fold (fill outcomes) order (replicate (length outcomes) None)
           = map (\<lambda>x. Some (projr x)) outcomes"
proof (rule nth_equalityI)
  show "length (fold (fill outcomes) order (replicate (length outcomes) None))
          = length (map (\<lambda>x. Some (projr x)) outcomes)"
    by (simp add: length_fold_fill)
next
  fix j assume "j < length (fold (fill outcomes) order (replicate (length outcomes) None))"
  then have j: "j < length outcomes" by (simp add: length_fold_fill)
  then have "j \<in> set order" using as_completed_set[OF assms] by simp
  with j show "fold (fill outcomes) order (replicate (length outcomes) None) ! j
                 = map (\<lambda>x. Some (projr x)) outcomes ! j"
    by (simp add: nth_fold_fill)
qed

lemma collect_fail:
  "\<forall>i\<in>set order. i < length outcomes \<Longrightarrow>
   find (\<lambda>i. isl (outcomes ! i)) order = Some i \<Longrightarrow>
     collect outcomes order rs = Inl (parallel_error (projl (outcomes ! i)))"
proof (induction order arbitrary: rs)
  case Nil
  then show ?case by simp
next
  case (Cons k order)
  show ?case
  proof (cases "outcomes ! k")
    case (Inl e)
    with Cons.prems show ?thesis by simp
  next
    case (Inr r)
    with Cons.prems have "find (\<lambda>i. isl (outcomes ! i)) order = Some i" by simp
    with Cons Inr show ?thesis by simp
  qed
qed


lemma find_failed_index:
  assumes "\<forall>i\<in>set order. i < length ps"
  shows "find (\<lambda>i. isl (map (\<lambda>p. outcome_of self api p config) ps ! i)) order
           = find (\<lambda>i. \<not> succeeds self api config (ps ! i)) order"
  using assms by (intro find_cong) (simp_all add: succeeds_def)

lemma parallel_ok:
  assumes c: "as_completed completion (length ps)"
      and ok: "\<forall>p\<in>set ps. succeeds self api config p"
  shows "parallel self api completion config ps =
           \<lparr> yielded = map (\<lambda>p. [projr (outcome_of self api p config)]) ps,
             raised = None,
             calls = map (\<lambda>p. api_call self p config) ps,
             pool = Some (min (max_workers self) (int (length ps))) \<rparr>"
proof -
  let ?outs = "map (\<lambda>p. outcome_of self api p config) ps"
  have c': "as_completed completion (length ?outs)" using c by simp
  have "\<forall>i\<in>set completion. i < length ?outs \<and> \<not> isl (?outs ! i)"
    using as_completed_set[OF c] ok by (simp add: succeeds_def)
  then have "collect ?outs completion (replicate (length ps) None)
               = Inr (fold (fill ?outs) completion (replicate (length ps) None))"
    by (rule collect_ok)
  also have "fold (fill ?outs) completion (replicate (length ps) None)
               = map (\<lambda>p. Some (projr (outcome_of self api p config))) ps"
    using fold_fill_all[OF c'] by (simp add: comp_def)
  finally show ?thesis
    by (simp add: parallel_def submit_all_eq emit_Some Let_def)
qed

lemma parallel_fail:
  assumes c: "as_completed completion (length ps)"
      and f: "find (\<lambda>i. \<not> succeeds self api config (ps ! i)) completion = Some i"
  shows "parallel self api completion config ps =
           \<lparr> yielded = [],
             raised = Some (parallel_error (projl (outcome_of self api (ps ! i) config))),
             calls = map (\<lambda>p. api_call self p config) ps,
             pool = Some (min (max_workers self) (int (length ps))) \<rparr>"
proof -
  let ?outs = "map (\<lambda>p. outcome_of self api p config) ps"
  have r: "\<forall>i\<in>set completion. i < length ps"
    using as_completed_set[OF c] by simp
  have i: "i < length ps"
    using f r by (auto simp: find_Some_iff)
  have "find (\<lambda>i. isl (?outs ! i)) completion = Some i"
    using find_failed_index[OF r] f by simp
  moreover have "\<forall>i\<in>set completion. i < length ?outs" using r by simp
  ultimately have "collect ?outs completion (replicate (length ps) None)
                     = Inl (parallel_error (projl (?outs ! i)))"
    by (intro collect_fail)
  then show ?thesis
    using i by (simp add: parallel_def submit_all_eq Let_def)
qed

lemma failed_outcome:
  "\<not> succeeds self api config p \<Longrightarrow>
     \<exists>e. outcome_of self api p config = Inl (api_error self e)"
  by (auto simp: succeeds_def outcome_of_eq split: sum.splits list.splits)

lemma some_completion_fails:
  assumes c: "as_completed completion (length ps)"
      and b: "\<exists>p\<in>set ps. \<not> succeeds self api config p"
  shows "\<exists>i. find (\<lambda>i. \<not> succeeds self api config (ps ! i)) completion = Some i"
proof -
  from b obtain k where "k < length ps" "\<not> succeeds self api config (ps ! k)"
    by (auto simp: in_set_conv_nth)
  then have "\<exists>i\<in>set completion. \<not> succeeds self api config (ps ! i)"
    using as_completed_set[OF c] by auto
  then show ?thesis
    by (cases "find (\<lambda>i. \<not> succeeds self api config (ps ! i)) completion")
       (auto simp: find_None_iff)
qed

lemma demo_ok:
  "p \<noteq> ''bad'' \<Longrightarrow>
     outcome_of (demo_model b w) echo_api p config = Inr \<lparr> score = 1, so_output = p \<rparr>"
  by (simp add: outcome_of_eq api_call_def messages_def system_message_def demo_model_def
        echo_api_def)

lemma demo_bad:
  "outcome_of (demo_model b w) echo_api ''bad'' config
     = Inl (api_error (demo_model b w) (RemoteError ''boom''))"
  by (simp add: outcome_of_eq api_call_def messages_def system_message_def demo_model_def
        echo_api_def)

lemma calls_parallel:
  "calls (parallel self api completion config ps) = map (\<lambda>p. api_call self p config) ps"
  by (simp add: parallel_def submit_all_eq Let_def split: sum.splits prod.splits)

lemma pool_parallel:
  "pool (parallel self api completion config ps)
     = Some (min (max_workers self) (int (length ps)))"
  by (simp add: parallel_def submit_all_eq Let_def split: sum.splits prod.splits)

lemma calls_sequential:
  "calls (sequential self api config ps [])
     = map (\<lambda>p. api_call self p config)
           (take (Suc (length (takeWhile (succeeds self api config) ps))) ps)"
  by (simp add: sequential_eq)

lemma calls_infer_subset:
  "set (calls (infer self api completion ps kw))
     \<subseteq> (\<lambda>p. api_call self p (call_config self kw)) ` set ps"
proof (cases "1 < length ps \<and> 1 < max_workers self")
  case True
  then show ?thesis by (simp add: infer_def Let_def calls_parallel)
next
  case False
  have "set (take (Suc (length (takeWhile (succeeds self api (call_config self kw)) ps))) ps)
          \<subseteq> set ps"
    by (rule set_take_subset)
  with False show ?thesis
    by (auto simp: infer_def Let_def calls_sequential)
qed

lemma api_call_config:
  "api_call self p (call_config self kw) =
     \<lparr> req_model = model_id self,
       req_messages = messages self p,
       req_temperature = (case kw ''temperature'' of
                            Some v \<Rightarrow> v | None \<Rightarrow> PyFloat (temperature self)),
       req_max_tokens = (case kw ''max_output_tokens'' of
                           Some v \<Rightarrow> v | None \<Rightarrow> default_max_tokens (provider self)),
       req_top_p = (case kw ''top_p'' of Some v \<Rightarrow> v | None \<Rightarrow> PyNone) \<rparr>"
  by (simp add: api_call_def call_config_def dict_get_def Let_def split: option.splits)

text \<open>
  C8. An empty batch takes the sequential branch, whose loop has nothing to do: nothing is
  yielded, no remote call is issued and no exception is raised, for either backend.
\<close>

theorem infer_empty_batch:
  "infer self api completion [] kw = \<lparr> yielded = [], raised = None, calls = [], pool = None \<rparr>"
  by (simp add: infer_def Let_def)

theorem infer_empty_batch_witness:
  "infer (demo_model Anthropic 10) echo_api [] [] Map.empty
     = \<lparr> yielded = [], raised = None, calls = [], pool = None \<rparr>
   \<and> infer (demo_model Mistral 10) echo_api [] [] Map.empty
     = \<lparr> yielded = [], raised = None, calls = [], pool = None \<rparr>"
  using infer_empty_batch [of "demo_model Anthropic 10" echo_api "[]" Map.empty]
        infer_empty_batch [of "demo_model Mistral 10" echo_api "[]" Map.empty]
  by simp

text \<open>
  C10. Processing a prompt issues one remote call, whose message sequence is the system
  directive for the configured format followed by the user prompt when the format is JSON or
  YAML, and the user prompt alone for any other value of \<^verbatim>\<open>format_type\<close>.
\<close>

theorem messages_sent:
  "snd (process_single_prompt self api prompt config trace)
     = trace @ [api_call self prompt config]
   \<and> req_messages (api_call self prompt config) =
       (case format_type self of
          JSON \<Rightarrow> [\<lparr> role = ''system'',
                      content = ''You are a helpful assistant that responds in JSON format.'' \<rparr>,
                    \<lparr> role = ''user'', content = prompt \<rparr>]
        | YAML \<Rightarrow> [\<lparr> role = ''system'',
                      content = ''You are a helpful assistant that responds in YAML format.'' \<rparr>,
                    \<lparr> role = ''user'', content = prompt \<rparr>]
        | OtherFormat \<Rightarrow> [\<lparr> role = ''user'', content = prompt \<rparr>])"
  by (simp add: process_single_prompt_eq api_call_def messages_def system_message_def
        split: FormatType.splits)

theorem messages_sent_witness:
  "snd (process_single_prompt (demo_model Anthropic 1) echo_api ''a'' Map.empty [])
     = [api_call (demo_model Anthropic 1) ''a'' Map.empty]
   \<and> req_messages (api_call (demo_model Anthropic 1) ''a'' Map.empty)
     = [\<lparr> role = ''system'',
          content = ''You are a helpful assistant that responds in JSON format.'' \<rparr>,
        \<lparr> role = ''user'', content = ''a'' \<rparr>]
   \<and> req_messages (api_call (demo_model Mistral 1\<lparr> format_type := OtherFormat \<rparr>) ''a'' Map.empty)
     = [\<lparr> role = ''user'', content = ''a'' \<rparr>]"
proof -
  have f: "format_type (demo_model Anthropic 1) = JSON"
          "format_type (demo_model Mistral 1\<lparr> format_type := OtherFormat \<rparr>) = OtherFormat"
    by (simp_all add: demo_model_def)
  from messages_sent [of "demo_model Anthropic 1" echo_api "''a''" Map.empty "[]"]
       messages_sent [of "demo_model Mistral 1\<lparr> format_type := OtherFormat \<rparr>" echo_api "''a''"
                         Map.empty "[]"]
  show ?thesis by (simp add: f)
qed

text \<open>
  C7. Whenever processing a prompt returns a Scored Output, its score is the constant 1.0 and
  its text is the first content element of the response of the remote call, for every
  prompt, configuration and backend.
\<close>

theorem scored_output_of_response:
  "fst (process_single_prompt self api prompt config trace) = Inr so \<Longrightarrow>
     score so = 1 \<and> (\<exists>rest. api (api_call self prompt config) = Inr (so_output so # rest))"
  by (auto simp: process_single_prompt_eq outcome_of_eq split: sum.splits list.splits)

theorem scored_output_of_response_witness:
  "fst (process_single_prompt (demo_model Mistral 1) echo_api ''a'' Map.empty [])
     = Inr \<lparr> score = 1, so_output = ''a'' \<rparr>
   \<and> score \<lparr> score = 1, so_output = ''a'' \<rparr> = 1
   \<and> (\<exists>rest. echo_api (api_call (demo_model Mistral 1) ''a'' Map.empty) = Inr (''a'' # rest))"
proof -
  have h: "fst (process_single_prompt (demo_model Mistral 1) echo_api ''a'' Map.empty [])
             = Inr \<lparr> score = 1, so_output = ''a'' \<rparr>"
    by (simp add: process_single_prompt_eq demo_ok)
  from scored_output_of_response [OF h] h show ?thesis by simp
qed

text \<open>
  C9. Without a \<^verbatim>\<open>max_output_tokens\<close> override, every remote call of \<^verbatim>\<open>infer\<close> carries
  \<^verbatim>\<open>max_tokens=4096\<close> on the Anthropic adapter and \<^verbatim>\<open>max_tokens=None\<close> on the Mistral
  adapter, whatever the instance holds.
\<close>

theorem max_tokens_default:
  assumes "kw ''max_output_tokens'' = None"
  shows "\<forall>c\<in>set (calls (infer self api completion ps kw)).
           req_max_tokens c = (case provider self of Anthropic \<Rightarrow> PyInt 4096 | Mistral \<Rightarrow> PyNone)"
proof
  fix c assume "c \<in> set (calls (infer self api completion ps kw))"
  then obtain p where "c = api_call self p (call_config self kw)"
    using calls_infer_subset by blast
  with assms show "req_max_tokens c
                     = (case provider self of Anthropic \<Rightarrow> PyInt 4096 | Mistral \<Rightarrow> PyNone)"
    by (simp add: api_call_config default_max_tokens_def)
qed

text \<open>
  C6. In every remote call of \<^verbatim>\<open>infer\<close>, temperature, maximum output tokens and top-p are
  the call-level override when the key is present; an absent temperature falls back to the
  instance's temperature, an absent maximum to the backend's fixed value, and an absent top-p
  is passed as \<^verbatim>\<open>None\<close>. No other key of the overrides reaches the call.
\<close>

theorem call_overrides:
  "\<forall>c\<in>set (calls (infer self api completion ps kw)).
     req_temperature c = (case kw ''temperature'' of
                            Some v \<Rightarrow> v | None \<Rightarrow> PyFloat (temperature self))
   \<and> req_max_tokens c = (case kw ''max_output_tokens'' of
                           Some v \<Rightarrow> v | None \<Rightarrow> default_max_tokens (provider self))
   \<and> req_top_p c = (case kw ''top_p'' of Some v \<Rightarrow> v | None \<Rightarrow> PyNone)"
proof
  fix c assume "c \<in> set (calls (infer self api completion ps kw))"
  then obtain p where "c = api_call self p (call_config self kw)"
    using calls_infer_subset by blast
  then show "req_temperature c = (case kw ''temperature'' of
                            Some v \<Rightarrow> v | None \<Rightarrow> PyFloat (temperature self))
   \<and> req_max_tokens c = (case kw ''max_output_tokens'' of
                           Some v \<Rightarrow> v | None \<Rightarrow> default_max_tokens (provider self))
   \<and> req_top_p c = (case kw ''top_p'' of Some v \<Rightarrow> v | None \<Rightarrow> PyNone)"
    by (simp add: api_call_config)
qed

lemma demo_calls_seq:
  "calls (infer (demo_model b 1) echo_api [] [''a''] kw)
     = [api_call (demo_model b 1) ''a'' (call_config (demo_model b 1) kw)]"
  by (simp add: infer_def Let_def sequential_eq del: sequential.simps)

lemma demo_calls_par:
  "calls (infer (demo_model b 4) echo_api order [''a'', ''b''] kw)
     = [api_call (demo_model b 4) ''a'' (call_config (demo_model b 4) kw),
        api_call (demo_model b 4) ''b'' (call_config (demo_model b 4) kw)]"
  by (simp add: infer_def Let_def calls_parallel demo_model_def)

theorem max_tokens_default_witness:
  "Map.empty ''max_output_tokens'' = (None :: pyval option)
   \<and> map req_max_tokens
         (calls (infer (demo_model Anthropic 4) echo_api [1, 0] [''a'', ''b''] Map.empty))
       = [PyInt 4096, PyInt 4096]
   \<and> map req_max_tokens
         (calls (infer (demo_model Mistral 1) echo_api [] [''a''] Map.empty))
       = [PyNone]"
proof -
  have h: "Map.empty ''max_output_tokens'' = (None :: pyval option)" by simp
  have a: "provider (demo_model Anthropic 4) = Anthropic"
   and m: "provider (demo_model Mistral 1) = Mistral"
    by (simp_all add: demo_model_def)
  from max_tokens_default [OF h, of "demo_model Anthropic 4" echo_api "[1, 0]" "[''a'', ''b'']"]
       max_tokens_default [OF h, of "demo_model Mistral 1" echo_api "[]" "[''a'']"]
  show ?thesis
    by (simp add: a m demo_calls_seq demo_calls_par)
qed

theorem call_overrides_witness:
  "map req_temperature
     (calls (infer (demo_model Anthropic 1) echo_api [] [''a'']
               [''temperature'' \<mapsto> PyFloat 1, ''stop'' \<mapsto> PyStr ''x'']))
     = [PyFloat 1]
   \<and> map req_max_tokens
     (calls (infer (demo_model Anthropic 1) echo_api [] [''a'']
               [''temperature'' \<mapsto> PyFloat 1, ''stop'' \<mapsto> PyStr ''x'']))
     = [PyInt 4096]
   \<and> map req_top_p
     (calls (infer (demo_model Anthropic 1) echo_api [] [''a'']
               [''temperature'' \<mapsto> PyFloat 1, ''stop'' \<mapsto> PyStr ''x'']))
     = [PyNone]"
proof -
  have a: "default_max_tokens (provider (demo_model Anthropic 1)) = PyInt 4096"
    by (simp add: demo_model_def default_max_tokens_def)
  from call_overrides [of "demo_model Anthropic 1" echo_api "[]" "[''a'']"
                          "[''temperature'' \<mapsto> PyFloat 1, ''stop'' \<mapsto> PyStr ''x'']"]
  show ?thesis
    by (simp add: demo_calls_seq a)
qed

subsection \<open>Execution mode, order, failure and construction\<close>

lemma infer_sequential:
  assumes "\<not> (1 < length ps \<and> 1 < max_workers self)"
  shows "infer self api completion ps kw =
     \<lparr> yielded = map (\<lambda>p. [projr (outcome_of self api p (call_config self kw))])
                     (takeWhile (succeeds self api (call_config self kw)) ps),
       raised = (case dropWhile (succeeds self api (call_config self kw)) ps of
                   [] \<Rightarrow> None
                 | p # _ \<Rightarrow> Some (projl (outcome_of self api p (call_config self kw)))),
       calls = map (\<lambda>p. api_call self p (call_config self kw))
                   (take (Suc (length (takeWhile (succeeds self api (call_config self kw)) ps))) ps),
       pool = None \<rparr>"
proof -
  have "infer self api completion ps kw = sequential self api (call_config self kw) ps []"
    using assms by (auto simp: infer_def Let_def)
  then show ?thesis by (simp only: sequential_eq append_Nil)
qed

lemma infer_parallel_ok:
  assumes "1 < length ps" "1 < max_workers self"
      and "as_completed completion (length ps)"
      and "\<forall>p\<in>set ps. succeeds self api (call_config self kw) p"
  shows "infer self api completion ps kw =
           \<lparr> yielded = map (\<lambda>p. [projr (outcome_of self api p (call_config self kw))]) ps,
             raised = None,
             calls = map (\<lambda>p. api_call self p (call_config self kw)) ps,
             pool = Some (min (max_workers self) (int (length ps))) \<rparr>"
  using assms by (simp add: infer_def Let_def parallel_ok)

lemma infer_parallel_fail:
  assumes "1 < length ps" "1 < max_workers self"
      and "as_completed completion (length ps)"
      and "find (\<lambda>i. \<not> succeeds self api (call_config self kw) (ps ! i)) completion = Some i"
  shows "infer self api completion ps kw =
           \<lparr> yielded = [],
             raised = Some (parallel_error
                              (projl (outcome_of self api (ps ! i) (call_config self kw)))),
             calls = map (\<lambda>p. api_call self p (call_config self kw)) ps,
             pool = Some (min (max_workers self) (int (length ps))) \<rparr>"
  using assms by (simp add: infer_def Let_def parallel_fail)

lemma demo_succeeds:
  "succeeds (demo_model b w) echo_api config p \<longleftrightarrow> p \<noteq> ''bad''"
  by (cases "p = ''bad''") (simp_all add: succeeds_def demo_ok demo_bad)

lemma demo_fields:
  "provider (demo_model b w) = b" "max_workers (demo_model b w) = w"
  by (simp_all add: demo_model_def)

text \<open>
  C5. \<^verbatim>\<open>infer\<close> creates a worker pool exactly when the batch has more than one prompt and
  \<^verbatim>\<open>max_workers\<close> is greater than 1. The pool then has
  \<^verbatim>\<open>min(max_workers, len(batch_prompts))\<close> workers and every prompt of the batch is
  dispatched to it, one remote call each; once each future has completed, either all
  outputs are yielded in input order or nothing is yielded and the first failure in order of
  completion is raised. In every other case the prompts are processed one after the other
  in input order: the outputs of the prompts before the first failing one are yielded, the
  remote calls are those of these prompts and of the failing one, in this order, and the
  error of the failing prompt, if there is one, ends the run.
\<close>

theorem execution_mode:
  "(pool (infer self api completion ps kw) \<noteq> None
      \<longleftrightarrow> 1 < length ps \<and> 1 < max_workers self)
   \<and> (1 < length ps \<and> 1 < max_workers self \<longrightarrow>
        pool (infer self api completion ps kw)
          = Some (min (max_workers self) (int (length ps)))
        \<and> calls (infer self api completion ps kw)
          = map (\<lambda>p. api_call self p (call_config self kw)) ps
        \<and> (as_completed completion (length ps) \<longrightarrow>
             (if \<forall>p\<in>set ps. succeeds self api (call_config self kw) p
              then yielded (infer self api completion ps kw)
                     = map (\<lambda>p. [projr (outcome_of self api p (call_config self kw))]) ps
                   \<and> raised (infer self api completion ps kw) = None
              else yielded (infer self api completion ps kw) = []
                   \<and> (\<exists>i. find (\<lambda>i. \<not> succeeds self api (call_config self kw) (ps ! i))
                              completion = Some i
                          \<and> raised (infer self api completion ps kw)
                              = Some (parallel_error
                                  (projl (outcome_of self api (ps ! i) (call_config self kw))))))))
   \<and> (\<not> (1 < length ps \<and> 1 < max_workers self) \<longrightarrow>
        yielded (infer self api completion ps kw)
          = map (\<lambda>p. [projr (outcome_of self api p (call_config self kw))])
                (takeWhile (succeeds self api (call_config self kw)) ps)
        \<and> raised (infer self api completion ps kw)
          = (case dropWhile (succeeds self api (call_config self kw)) ps of
               [] \<Rightarrow> None
             | p # _ \<Rightarrow> Some (projl (outcome_of self api p (call_config self kw))))
        \<and> calls (infer self api completion ps kw)
          = map (\<lambda>p. api_call self p (call_config self kw))
                (take (Suc (length (takeWhile (succeeds self api (call_config self kw)) ps))) ps))"
proof (cases "1 < length ps \<and> 1 < max_workers self")
  case False
  then show ?thesis by (simp add: infer_sequential [OF False])
next
  case True
  then have l: "1 < length ps" and w: "1 < max_workers self" by simp_all
  let ?ok = "succeeds self api (call_config self kw)"
  have p: "pool (infer self api completion ps kw)
             = Some (min (max_workers self) (int (length ps)))"
    using True by (simp add: infer_def Let_def pool_parallel)
  have c: "calls (infer self api completion ps kw)
             = map (\<lambda>p. api_call self p (call_config self kw)) ps"
    using True by (simp add: infer_def Let_def calls_parallel)
  have r: "if \<forall>p\<in>set ps. ?ok p
              then yielded (infer self api completion ps kw)
                     = map (\<lambda>p. [projr (outcome_of self api p (call_config self kw))]) ps
                   \<and> raised (infer self api completion ps kw) = None
              else yielded (infer self api completion ps kw) = []
                   \<and> (\<exists>i. find (\<lambda>i. \<not> ?ok (ps ! i)) completion = Some i
                          \<and> raised (infer self api completion ps kw)
                              = Some (parallel_error
                                  (projl (outcome_of self api (ps ! i) (call_config self kw)))))"
    if a: "as_completed completion (length ps)"
  proof (cases "\<forall>p\<in>set ps. ?ok p")
    case ok: True
    from infer_parallel_ok [OF l w a ok] ok show ?thesis by simp
  next
    case bad: False
    then have "\<exists>p\<in>set ps. \<not> ?ok p" by simp
    from some_completion_fails [OF a this] obtain i
      where f: "find (\<lambda>i. \<not> ?ok (ps ! i)) completion = Some i" by blast
    from infer_parallel_fail [OF l w a f] f bad show ?thesis by simp
  qed
  from True p c r show ?thesis by simp
qed

theorem execution_mode_witness:
  "pool (infer (demo_model Anthropic 4) echo_api [2, 0, 1] [''a'', ''b'', ''c''] Map.empty)
     = Some 3
   \<and> map req_messages
        (calls (infer (demo_model Anthropic 4) echo_api [2, 0, 1] [''a'', ''b'', ''c''] Map.empty))
     = [messages (demo_model Anthropic 4) ''a'', messages (demo_model Anthropic 4) ''b'',
        messages (demo_model Anthropic 4) ''c'']
   \<and> yielded (infer (demo_model Anthropic 4) echo_api [2, 0, 1] [''a'', ''b'', ''c''] Map.empty)
     = [[\<lparr> score = 1, so_output = ''a'' \<rparr>], [\<lparr> score = 1, so_output = ''b'' \<rparr>],
        [\<lparr> score = 1, so_output = ''c'' \<rparr>]]
   \<and> pool (infer (demo_model Mistral 2) echo_api [2, 0, 1] [''a'', ''bad'', ''c''] Map.empty)
     = Some 2
   \<and> yielded (infer (demo_model Mistral 2) echo_api [2, 0, 1] [''a'', ''bad'', ''c''] Map.empty)
     = []
   \<and> length (calls (infer (demo_model Mistral 2) echo_api [2, 0, 1] [''a'', ''bad'', ''c'']
                       Map.empty)) = 3
   \<and> pool (infer (demo_model Mistral 1) echo_api [] [''a'', ''bad'', ''c''] Map.empty) = None
   \<and> map req_messages
        (calls (infer (demo_model Mistral 1) echo_api [] [''a'', ''bad'', ''c''] Map.empty))
     = [messages (demo_model Mistral 1) ''a'', messages (demo_model Mistral 1) ''bad'']
   \<and> yielded (infer (demo_model Mistral 1) echo_api [] [''a'', ''bad'', ''c''] Map.empty)
     = [[\<lparr> score = 1, so_output = ''a'' \<rparr>]]
   \<and> raised (infer (demo_model Mistral 1) echo_api [] [''a'', ''bad'', ''c''] Map.empty)
     = Some (InferenceRuntimeError ''Mistral API error: boom'' (Some (RemoteError ''boom'')))"
proof -
  from execution_mode [of "demo_model Anthropic 4" echo_api "[2, 0, 1]" "[''a'', ''b'', ''c'']"
                          Map.empty]
       execution_mode [of "demo_model Mistral 2" echo_api "[2, 0, 1]" "[''a'', ''bad'', ''c'']"
                          Map.empty]
       execution_mode [of "demo_model Mistral 1" echo_api "[]" "[''a'', ''bad'', ''c'']"
                          Map.empty]
  show ?thesis
    by (simp add: as_completed_def upt_rec demo_fields demo_succeeds demo_ok demo_bad
          api_call_config api_error_def api_error_prefix_def)
qed

text \<open>
  C2. When no prompt of the batch fails, \<^verbatim>\<open>infer\<close> ends without an exception and yields as
  many groups as there are prompts; the group at position \<open>i\<close> holds exactly the Scored
  Output of the prompt at position \<open>i\<close>, for every order in which the workers complete.
\<close>

theorem one_output_per_prompt:
  assumes "as_completed completion (length ps)"
      and "\<forall>p\<in>set ps. succeeds self api (call_config self kw) p"
  shows "raised (infer self api completion ps kw) = None
         \<and> length (yielded (infer self api completion ps kw)) = length ps
         \<and> (\<forall>i<length ps. \<exists>so.
               yielded (infer self api completion ps kw) ! i = [so]
               \<and> outcome_of self api (ps ! i) (call_config self kw) = Inr so)"
proof -
  let ?cfg = "call_config self kw"
  have tw: "takeWhile (succeeds self api ?cfg) ps = ps"
       and dw: "dropWhile (succeeds self api ?cfg) ps = []"
    using assms(2) by simp_all
  have "yielded (infer self api completion ps kw)
             = map (\<lambda>p. [projr (outcome_of self api p ?cfg)]) ps
         \<and> raised (infer self api completion ps kw) = None"
  proof (cases "1 < length ps \<and> 1 < max_workers self")
    case True
    then show ?thesis using assms by (simp add: infer_parallel_ok)
  next
    case False
    then show ?thesis by (simp add: infer_sequential tw dw)
  qed
  then have y: "yielded (infer self api completion ps kw)
             = map (\<lambda>p. [projr (outcome_of self api p ?cfg)]) ps"
       and r: "raised (infer self api completion ps kw) = None"
    by simp_all
  have "\<exists>so. yielded (infer self api completion ps kw) ! i = [so]
               \<and> outcome_of self api (ps ! i) ?cfg = Inr so" if "i < length ps" for i
  proof -
    from that assms(2) have "\<not> isl (outcome_of self api (ps ! i) ?cfg)"
      by (simp add: succeeds_def)
    then obtain so where "outcome_of self api (ps ! i) ?cfg = Inr so"
      by (cases "outcome_of self api (ps ! i) ?cfg") auto
    with that y show ?thesis by simp
  qed
  with y r show ?thesis by simp
qed

theorem one_output_per_prompt_witness:
  "as_completed [2, 0, 1] (length [''a'', ''b'', ''c''])
   \<and> succeeds (demo_model Anthropic 4) echo_api (call_config (demo_model Anthropic 4) Map.empty) ''a''
   \<and> succeeds (demo_model Anthropic 4) echo_api (call_config (demo_model Anthropic 4) Map.empty) ''b''
   \<and> succeeds (demo_model Anthropic 4) echo_api (call_config (demo_model Anthropic 4) Map.empty) ''c''
   \<and> raised (infer (demo_model Anthropic 4) echo_api [2, 0, 1] [''a'', ''b'', ''c''] Map.empty)
       = None
   \<and> yielded (infer (demo_model Anthropic 4) echo_api [2, 0, 1] [''a'', ''b'', ''c''] Map.empty)
       = [[\<lparr> score = 1, so_output = ''a'' \<rparr>], [\<lparr> score = 1, so_output = ''b'' \<rparr>],
          [\<lparr> score = 1, so_output = ''c'' \<rparr>]]"
proof -
  let ?m = "demo_model Anthropic 4"
  let ?r = "infer ?m echo_api [2, 0, 1] [''a'', ''b'', ''c''] Map.empty"
  have c: "as_completed [2, 0, 1] (length [''a'', ''b'', ''c''])"
    by (simp add: as_completed_def upt_rec)
  have s: "\<forall>p\<in>set [''a'', ''b'', ''c'']. succeeds ?m echo_api (call_config ?m Map.empty) p"
    by (simp add: demo_succeeds)
  have y: "yielded ?r = [[\<lparr> score = 1, so_output = ''a'' \<rparr>],
          [\<lparr> score = 1, so_output = ''b'' \<rparr>], [\<lparr> score = 1, so_output = ''c'' \<rparr>]]"
    using c s by (simp add: infer_parallel_ok demo_fields demo_ok)
  from one_output_per_prompt [OF c s] have "raised ?r = None"
    by simp
  with y c show ?thesis by (simp add: demo_succeeds)
qed

lemma dropWhile_find:
  "find (\<lambda>x. \<not> P x) xs = Some x \<Longrightarrow> \<exists>rest. dropWhile P xs = x # rest"
  by (induction xs) (auto split: if_splits)

lemma dropWhile_failing:
  assumes "\<exists>p\<in>set ps. \<not> P p"
  shows "\<exists>p rest. dropWhile P ps = p # rest \<and> \<not> P p"
proof -
  from assms have "dropWhile P ps \<noteq> []" by auto
  then obtain p rest where d: "dropWhile P ps = p # rest"
    by (cases "dropWhile P ps") auto
  then have "\<not> P p" using hd_dropWhile[of P ps] by auto
  with d show ?thesis by blast
qed

lemma raised_outcome:
  "api (api_call self p config) = Inl e \<Longrightarrow>
     outcome_of self api p config = Inl (api_error self e)"
  by (simp add: outcome_of_eq)

lemma demo_remote_bad:
  "echo_api (api_call (demo_model b w) ''bad'' config) = Inl (RemoteError ''boom'')"
  by (simp add: echo_api_def api_call_def messages_def system_message_def demo_model_def)

text \<open>
  C1, as the code has it. For a batch of more than one prompt in which some prompt fails,
  \<^verbatim>\<open>infer\<close> raises an \<open>InferenceRuntimeError\<close> that carries an original error, and never
  yields an output for every prompt. On the worker-pool path (\<^verbatim>\<open>max_workers > 1\<close>) nothing is
  yielded. On the sequential path the outputs of the prompts before the first failing one are
  yielded, in input order, before the error is raised.
\<close>

theorem fail_fast:
  assumes "1 < length ps"
      and "as_completed completion (length ps)"
      and "\<exists>p\<in>set ps. \<not> succeeds self api (call_config self kw) p"
  shows "(\<exists>msg orig. raised (infer self api completion ps kw)
                        = Some (InferenceRuntimeError msg (Some orig)))
         \<and> length (yielded (infer self api completion ps kw)) < length ps
         \<and> (1 < max_workers self \<longrightarrow> yielded (infer self api completion ps kw) = [])
         \<and> (\<not> 1 < max_workers self \<longrightarrow>
              yielded (infer self api completion ps kw)
                = map (\<lambda>p. [projr (outcome_of self api p (call_config self kw))])
                      (takeWhile (succeeds self api (call_config self kw)) ps))"
proof (cases "1 < max_workers self")
  case True
  from some_completion_fails [OF assms(2,3)] obtain i
    where "find (\<lambda>i. \<not> succeeds self api (call_config self kw) (ps ! i)) completion = Some i"
    by blast
  from infer_parallel_fail [OF assms(1) True assms(2) this] assms(1) True
  show ?thesis by (auto simp: parallel_error_def)
next
  case False
  let ?ok = "succeeds self api (call_config self kw)"
  from dropWhile_failing [OF assms(3)] obtain p rest
    where d: "dropWhile ?ok ps = p # rest" and p: "\<not> ?ok p" by blast
  from failed_outcome [OF p] obtain e
    where e: "outcome_of self api p (call_config self kw) = Inl (api_error self e)" by blast
  have "length (takeWhile ?ok ps) + length (dropWhile ?ok ps) = length ps"
    by (metis length_append takeWhile_dropWhile_id)
  with d have l: "length (takeWhile ?ok ps) < length ps" by simp
  from False have "\<not> (1 < length ps \<and> 1 < max_workers self)" by simp
  from infer_sequential [OF this] d e l False
  show ?thesis by (simp add: api_error_def)
qed

theorem fail_fast_witness:
  "1 < length [''a'', ''bad'', ''c'']
   \<and> as_completed [2, 0, 1] (length [''a'', ''bad'', ''c''])
   \<and> \<not> succeeds (demo_model Mistral 4) echo_api (call_config (demo_model Mistral 4) Map.empty)
         ''bad''
   \<and> yielded (infer (demo_model Mistral 4) echo_api [2, 0, 1] [''a'', ''bad'', ''c''] Map.empty)
       = []
   \<and> yielded (infer (demo_model Mistral 1) echo_api [2, 0, 1] [''a'', ''bad'', ''c''] Map.empty)
       = [[\<lparr> score = 1, so_output = ''a'' \<rparr>]]"
proof -
  let ?ps = "[''a'', ''bad'', ''c'']"
  have l: "1 < length ?ps" by simp
  have c: "as_completed [2, 0, 1] (length ?ps)"
    by (simp add: as_completed_def upt_rec)
  have f: "\<exists>p\<in>set ?ps. \<not> succeeds (demo_model Mistral w) echo_api
                            (call_config (demo_model Mistral w) Map.empty) p" for w
    by (simp add: demo_succeeds)
  from fail_fast [OF l c f, of 4] fail_fast [OF l c f, of 1] l c
  show ?thesis
    by (simp add: demo_fields demo_succeeds demo_ok)
qed

text \<open>
  C1 fails as stated on the sequential path: with one worker and the batch \<open>a, bad\<close>, the
  output of \<open>a\<close> is yielded before the failure of \<open>bad\<close> is raised.
\<close>

theorem fail_fast_sequential_counterexample:
  "1 < length [''a'', ''bad'']
   \<and> \<not> succeeds (demo_model Anthropic 1) echo_api
         (call_config (demo_model Anthropic 1) Map.empty) ''bad''
   \<and> yielded (infer (demo_model Anthropic 1) echo_api [0, 1] [''a'', ''bad''] Map.empty)
       = [[\<lparr> score = 1, so_output = ''a'' \<rparr>]]
   \<and> raised (infer (demo_model Anthropic 1) echo_api [0, 1] [''a'', ''bad''] Map.empty)
       = Some (InferenceRuntimeError ''Anthropic API error: boom'' (Some (RemoteError ''boom'')))"
  by (simp add: infer_sequential demo_fields demo_succeeds demo_ok demo_bad api_error_def
        api_error_prefix_def)

text \<open>
  C4, as the code has it. On the sequential path the error raised by \<^verbatim>\<open>infer\<close> for the first
  failing prompt is an \<open>InferenceRuntimeError\<close> whose \<^verbatim>\<open>original\<close> is the exception of the
  remote call itself. On the worker-pool path the error raised for the first failed future in
  completion order is an \<open>InferenceRuntimeError\<close> whose \<^verbatim>\<open>original\<close> is the
  \<open>InferenceRuntimeError\<close> made by \<^verbatim>\<open>_process_single_prompt\<close>, and the exception of the
  remote call is the \<^verbatim>\<open>original\<close> of that one.
\<close>

theorem error_original:
  assumes "as_completed completion (length ps)"
  shows "(\<not> (1 < length ps \<and> 1 < max_workers self)
           \<and> find (\<lambda>p. \<not> succeeds self api (call_config self kw) p) ps = Some p
           \<and> api (api_call self p (call_config self kw)) = Inl e
          \<longrightarrow> raised (infer self api completion ps kw)
                = Some (InferenceRuntimeError
                          (api_error_prefix (provider self) @ str_exn e) (Some e)))
       \<and> (1 < length ps \<and> 1 < max_workers self
           \<and> find (\<lambda>i. \<not> succeeds self api (call_config self kw) (ps ! i)) completion = Some i
           \<and> api (api_call self (ps ! i) (call_config self kw)) = Inl e'
          \<longrightarrow> raised (infer self api completion ps kw)
                = Some (InferenceRuntimeError
                          (''Parallel inference error: ''
                             @ api_error_prefix (provider self) @ str_exn e')
                          (Some (InferenceRuntimeError
                                   (api_error_prefix (provider self) @ str_exn e')
                                   (Some e')))))"
proof (intro conjI impI)
  assume a: "\<not> (1 < length ps \<and> 1 < max_workers self)
           \<and> find (\<lambda>p. \<not> succeeds self api (call_config self kw) p) ps = Some p
           \<and> api (api_call self p (call_config self kw)) = Inl e"
  then have "find (\<lambda>p. \<not> succeeds self api (call_config self kw) p) ps = Some p"
    by simp
  from dropWhile_find [OF this]
  obtain rest where "dropWhile (succeeds self api (call_config self kw)) ps = p # rest"
    by blast
  moreover from a have "outcome_of self api p (call_config self kw) = Inl (api_error self e)"
    by (simp add: raised_outcome)
  ultimately show "raised (infer self api completion ps kw)
                = Some (InferenceRuntimeError
                          (api_error_prefix (provider self) @ str_exn e) (Some e))"
    using a by (simp add: infer_sequential api_error_def)
next
  assume a: "1 < length ps \<and> 1 < max_workers self
           \<and> find (\<lambda>i. \<not> succeeds self api (call_config self kw) (ps ! i)) completion = Some i
           \<and> api (api_call self (ps ! i) (call_config self kw)) = Inl e'"
  then have "outcome_of self api (ps ! i) (call_config self kw) = Inl (api_error self e')"
    by (simp add: raised_outcome)
  with a assms show "raised (infer self api completion ps kw)
                = Some (InferenceRuntimeError
                          (''Parallel inference error: ''
                             @ api_error_prefix (provider self) @ str_exn e')
                          (Some (InferenceRuntimeError
                                   (api_error_prefix (provider self) @ str_exn e')
                                   (Some e'))))"
    by (simp add: infer_parallel_fail parallel_error_def api_error_def)
qed

theorem error_original_witness:
  "as_completed [1, 0] (length [''a'', ''bad''])
   \<and> find (\<lambda>p. \<not> succeeds (demo_model Anthropic 1) echo_api
                    (call_config (demo_model Anthropic 1) Map.empty) p) [''a'', ''bad'']
       = Some ''bad''
   \<and> find (\<lambda>i. \<not> succeeds (demo_model Anthropic 4) echo_api
                    (call_config (demo_model Anthropic 4) Map.empty) ([''a'', ''bad''] ! i)) [1, 0]
       = Some 1
   \<and> echo_api (api_call (demo_model Anthropic 1) ''bad''
                 (call_config (demo_model Anthropic 1) Map.empty)) = Inl (RemoteError ''boom'')
   \<and> raised (infer (demo_model Anthropic 1) echo_api [1, 0] [''a'', ''bad''] Map.empty)
       = Some (InferenceRuntimeError ''Anthropic API error: boom'' (Some (RemoteError ''boom'')))
   \<and> raised (infer (demo_model Anthropic 4) echo_api [1, 0] [''a'', ''bad''] Map.empty)
       = Some (InferenceRuntimeError ''Parallel inference error: Anthropic API error: boom''
                 (Some (InferenceRuntimeError ''Anthropic API error: boom''
                          (Some (RemoteError ''boom'')))))"
proof -
  have c: "as_completed [1, 0] (length [''a'', ''bad''])"
    by (simp add: as_completed_def upt_rec)
  have f1: "find (\<lambda>p. \<not> succeeds (demo_model Anthropic 1) echo_api
                    (call_config (demo_model Anthropic 1) Map.empty) p) [''a'', ''bad'']
       = Some ''bad''"
    by (simp add: demo_succeeds)
  have f2: "find (\<lambda>i. \<not> succeeds (demo_model Anthropic 4) echo_api
                    (call_config (demo_model Anthropic 4) Map.empty) ([''a'', ''bad''] ! i)) [1, 0]
       = Some 1"
    by (simp add: demo_succeeds)
  from error_original [OF c, where self = "demo_model Anthropic 1" and api = echo_api
                         and kw = Map.empty and p = "''bad''" and e = "RemoteError ''boom''"]
       error_original [OF c, where self = "demo_model Anthropic 4" and api = echo_api
                         and kw = Map.empty and i = 1 and e' = "RemoteError ''boom''"]
       c f1 f2
  show ?thesis
    by (simp add: demo_remote_bad demo_fields demo_succeeds api_error_prefix_def)
qed

text \<open>
  C4 fails as stated on the worker-pool path: the \<^verbatim>\<open>original\<close> of the error raised by
  \<^verbatim>\<open>infer\<close> is the intermediate error, not the exception of the remote call.
\<close>

theorem error_original_parallel_counterexample:
  "echo_api (api_call (demo_model Anthropic 4) ''bad''
               (call_config (demo_model Anthropic 4) Map.empty)) = Inl (RemoteError ''boom'')
   \<and> raised (infer (demo_model Anthropic 4) echo_api [1, 0] [''a'', ''bad''] Map.empty)
       = Some (InferenceRuntimeError ''Parallel inference error: Anthropic API error: boom''
                 (Some (InferenceRuntimeError ''Anthropic API error: boom''
                          (Some (RemoteError ''boom'')))))
   \<and> Option.bind (raised (infer (demo_model Anthropic 4) echo_api [1, 0] [''a'', ''bad'']
                             Map.empty)) original
       \<noteq> Some (RemoteError ''boom'')"
proof -
  have c: "as_completed [1, 0] (length [''a'', ''bad''])"
    by (simp add: as_completed_def upt_rec)
  have f: "find (\<lambda>i. \<not> succeeds (demo_model Anthropic 4) echo_api
                    (call_config (demo_model Anthropic 4) Map.empty) ([''a'', ''bad''] ! i)) [1, 0]
       = Some 1"
    by (simp add: demo_succeeds)
  have "infer (demo_model Anthropic 4) echo_api [1, 0] [''a'', ''bad''] Map.empty
          = \<lparr> yielded = [],
              raised = Some (parallel_error (projl (outcome_of (demo_model Anthropic 4) echo_api
                         ([''a'', ''bad''] ! 1) (call_config (demo_model Anthropic 4) Map.empty)))),
              calls = map (\<lambda>p. api_call (demo_model Anthropic 4) p
                                  (call_config (demo_model Anthropic 4) Map.empty)) [''a'', ''bad''],
              pool = Some (min (max_workers (demo_model Anthropic 4)) (int (length [''a'', ''bad'']))) \<rparr>"
    by (rule infer_parallel_fail [OF _ _ c f]) (simp_all add: demo_fields)
  then show ?thesis
    by (simp add: demo_remote_bad demo_bad parallel_error_def api_error_def api_error_prefix_def
          demo_fields)
qed




end
